theory Spec2Isabelle
  imports Main "HOL-Library.Word"
begin

section \<open>The plexi RPL DoDAG resource (apps/plexi/plexi-rpl.c)\<close>

text \<open>
  The module keeps a fixed-size table \<open>actual_routes\<close> of neighbour addresses with the
  time they were last heard, a flag \<open>new_notification\<close>, and a callback timer
  \<open>rpl_changed_timer\<close>. The GET handler serialises the preferred parent and the
  reachable children as JSON, one block at a time.

  Numbers. \<open>last_seen\<close> is a C \<open>long\<close> and \<open>clock_seconds()\<close> an \<open>unsigned long\<close>;
  both are modelled as 32-bit words, the \<open>long\<close> by its bit pattern, so that the free
  marker \<open>-1\<close> is the word \<open>-1\<close> (all ones) and the comparison of the sweep, which C
  carries out on \<open>unsigned long\<close>, is the unsigned order on words. \<open>size_t\<close> counters
  are \<open>nat\<close>, the block offset (\<open>int32_t\<close>) is \<open>int\<close>; sizes and sums are taken to
  stay below \<open>2^31\<close>, so neither wraps. Where the handler compares a \<open>size_t\<close> with the
  signed offset, C converts the signed side to unsigned, and a negative value becomes one
  above every size: the two comparisons below write this out.
\<close>

subsection \<open>Reachability table\<close>

text \<open>\<open>uip_ipaddr_t\<close>: eight 16-bit groups (\<open>u16[8]\<close>).\<close>

type_synonym ipaddr = "16 word list"

text \<open>\<open>struct plexi_actual_route_struct\<close>.\<close>

record plexi_actual_route =
  route :: ipaddr
  last_seen :: "32 word"

text \<open>\<open>PLEXI_RPL_UPDATE_INTERVAL\<close>, the default of the source.\<close>

definition PLEXI_RPL_UPDATE_INTERVAL :: "32 word" where
  "PLEXI_RPL_UPDATE_INTERVAL = 30"

text \<open>
  \<open>plexi_rpl_init\<close>: every slot is marked free; the address bytes are left as they are.
\<close>

definition plexi_rpl_init :: "plexi_actual_route list \<Rightarrow> plexi_actual_route list" where
  "plexi_rpl_init tbl = map (\<lambda>e. e\<lparr>last_seen := - 1\<rparr>) tbl"

text \<open>
  The table as the C runtime hands it to \<open>plexi_rpl_init\<close>: a global array of
  \<open>ACTUAL_ROUTES_NUM\<close> zeroed slots.
\<close>

definition zero_addr :: ipaddr where
  "zero_addr = replicate 8 0"

definition boot_table :: "nat \<Rightarrow> plexi_actual_route list" where
  "boot_table n = plexi_rpl_init (replicate n \<lparr>route = zero_addr, last_seen = 0\<rparr>)"

text \<open>
  First loop of \<open>plexi_rpl_packet_received\<close> (lines 275-286): the first slot whose
  address equals the sender gets a new time stamp, whatever its \<open>last_seen\<close> was.
\<close>

fun refresh_first :: "ipaddr \<Rightarrow> 32 word \<Rightarrow> plexi_actual_route list \<Rightarrow> plexi_actual_route list" where
  "refresh_first from now [] = []"
| "refresh_first from now (e # es) =
     (if route e = from then e\<lparr>last_seen := now\<rparr> # es
      else e # refresh_first from now es)"

text \<open>Second loop (lines 289-297): the first free slot takes the sender.\<close>

fun claim_free :: "ipaddr \<Rightarrow> 32 word \<Rightarrow> plexi_actual_route list \<Rightarrow> plexi_actual_route list" where
  "claim_free from now [] = []"
| "claim_free from now (e # es) =
     (if last_seen e = - 1 then \<lparr>route = from, last_seen = now\<rparr> # es
      else e # claim_free from now es)"

text \<open>
  \<open>plexi_rpl_packet_received\<close>, with the sender \<open>UIP_IP_BUF->srcipaddr\<close> and the value
  of \<open>clock_seconds()\<close> as arguments. The local \<open>updated\<close> is initialised to 0 and the
  only assignment to it is commented out in the source, so it is still 0 at the test on
  line 287.
\<close>

definition plexi_rpl_packet_received ::
  "ipaddr \<Rightarrow> 32 word \<Rightarrow> plexi_actual_route list \<Rightarrow> plexi_actual_route list" where
  "plexi_rpl_packet_received from now tbl =
     (let updated = (0 :: 8 word);
          tbl1 = refresh_first from now tbl
      in if updated = 0 then claim_free from now tbl1 else tbl1)"

text \<open>
  One pass of the \<open>for\<close> loop in the process \<open>blabla\<close> (lines 316-324), run at each
  expiry of its timer. The test compares a \<open>long\<close> with an \<open>unsigned long\<close>, hence
  unsigned, and the subtraction \<open>clock_seconds() - PLEXI_RPL_UPDATE_INTERVAL\<close> wraps.
\<close>

fun sweep :: "32 word \<Rightarrow> plexi_actual_route list \<Rightarrow> plexi_actual_route list" where
  "sweep now [] = []"
| "sweep now (e # es) =
     (if last_seen e < now - PLEXI_RPL_UPDATE_INTERVAL then e\<lparr>last_seen := - 1\<rparr> # es
      else e # sweep now es)"

text \<open>A slot is live when it is not marked free; the entries of a table are its live slots.\<close>

definition live :: "plexi_actual_route \<Rightarrow> bool" where
  "live e = (last_seen e \<noteq> - 1)"

definition entries :: "plexi_actual_route list \<Rightarrow> plexi_actual_route list" where
  "entries tbl = filter live tbl"

text \<open>Feeding a list of (sender, time) observations to the table, in order.\<close>

fun observe_all :: "(ipaddr \<times> 32 word) list \<Rightarrow> plexi_actual_route list \<Rightarrow> plexi_actual_route list" where
  "observe_all [] tbl = tbl"
| "observe_all ((a, t) # obs) tbl = observe_all obs (plexi_rpl_packet_received a t tbl)"

text \<open>
  The age test of the sweep in plain numbers: the entry was last heard more than
  \<open>PLEXI_RPL_UPDATE_INTERVAL\<close> seconds before \<open>now\<close>.
\<close>

definition older :: "32 word \<Rightarrow> plexi_actual_route \<Rightarrow> bool" where
  "older now e = (unat (last_seen e) + 30 < unat now)"

text \<open>Three link-local addresses for the examples.\<close>

definition addrA :: ipaddr where "addrA = [0xfe80, 0, 0, 0, 0, 0, 0, 1]"
definition addrB :: ipaddr where "addrB = [0xfe80, 0, 0, 0, 0, 0, 0, 2]"
definition addrC :: ipaddr where "addrC = [0xfe80, 0, 0, 0, 0, 0, 0, 3]"

subsection \<open>Chunk cursor\<close>

text \<open>
  The locals \<open>bufpos\<close> and \<open>strpos\<close> of the GET handler, with the bytes put into
  \<open>buffer\<close> so far, in order.
\<close>

record cursor =
  buffer :: string
  bufpos :: nat
  strpos :: nat

text \<open>
  Modelled from the spec: \<open>plexi_reply_char_if_possible\<close>,
  \<open>plexi_reply_string_if_possible\<close> and \<open>plexi_reply_ip_if_possible\<close> are called by
  the handler but defined in another file of the repository, which is not among the
  sources. Section 4.1 of the specification gives their common contract \<open>try_emit\<close>:
  an item that ends at or before the resumption offset is skipped; otherwise as many of
  its bytes as fit into the rest of the buffer are copied, the remainder is dropped; the
  logical position always advances by the full length of the item and the buffer
  position by the bytes copied. By section 3 the bytes of the logical output before the
  resumption offset are never copied, so of an item that straddles the offset only the
  part from the offset on is a candidate for copying.
\<close>

definition try_emit :: "string \<Rightarrow> nat \<Rightarrow> int \<Rightarrow> cursor \<Rightarrow> cursor" where
  "try_emit item bufsize offset c =
     (if offset \<noteq> - 1 \<and> int (strpos c + length item) \<le> offset
      then c\<lparr>strpos := strpos c + length item\<rparr>
      else
        let pending = drop (nat (offset - int (strpos c))) item;
            copied = take (bufsize - bufpos c) pending
        in c\<lparr>buffer := buffer c @ copied,
              bufpos := bufpos c + length copied,
              strpos := strpos c + length item\<rparr>)"

text \<open>
  Modelled from the spec: the three helpers, absent from the sources, are \<open>try_emit\<close>
  for the three kinds of item that section 4.1 names, a single character, a literal
  string and a formatted address. The arguments follow the calls in the handler: the
  item, the capacity \<open>preferred_size\<close>, the offset, and the cursor in place of the
  pointers to \<open>buffer\<close>, \<open>bufpos\<close> and \<open>strpos\<close>.
\<close>

definition plexi_reply_char_if_possible :: "char \<Rightarrow> nat \<Rightarrow> int \<Rightarrow> cursor \<Rightarrow> cursor" where
  "plexi_reply_char_if_possible ch bufsize offset c = try_emit [ch] bufsize offset c"

definition plexi_reply_string_if_possible :: "string \<Rightarrow> nat \<Rightarrow> int \<Rightarrow> cursor \<Rightarrow> cursor" where
  "plexi_reply_string_if_possible s bufsize offset c = try_emit s bufsize offset c"

text \<open>
  Modelled from the spec: the formatted-address item of section 4.1. The textual form of
  an address is owned by the address formatter, also outside the sources: it is the
  parameter \<open>fmt\<close>, and the text is emitted as one item.
\<close>

definition plexi_reply_ip_if_possible ::
  "(ipaddr \<Rightarrow> string) \<Rightarrow> ipaddr \<Rightarrow> nat \<Rightarrow> int \<Rightarrow> cursor \<Rightarrow> cursor" where
  "plexi_reply_ip_if_possible fmt a bufsize offset c = try_emit (fmt a) bufsize offset c"

subsection \<open>The GET handler\<close>

text \<open>
  Constants and collaborators the handler takes from headers outside the sources: the
  content-format number \<open>REST.type.APPLICATION_JSON\<close>, the two labels, and the address
  formatter.
\<close>

record plexi_config =
  APPLICATION_JSON :: nat
  DAG_PARENT_LABEL :: string
  DAG_CHILD_LABEL :: string
  ip_text :: "ipaddr \<Rightarrow> string"

text \<open>\<open>uip_ds6_route_t\<close>, as far as the handler reads it.\<close>

record uip_ds6_route =
  ipaddr :: ipaddr
  nexthop :: ipaddr

text \<open>
  What the handler reads from the routing engine during one call: the chosen default
  route (\<open>uip_ds6_defrt_lookup(uip_ds6_defrt_choose())\<close>, \<open>None\<close> for \<open>NULL\<close>), the
  first group of the DAG prefix (\<open>rpl_get_any_dag()->prefix_info.prefix.u16[0]\<close>, which
  the source reads without a test), and the route table in the order of
  \<open>uip_ds6_route_head\<close> / \<open>uip_ds6_route_next\<close>.
\<close>

record rpl_view =
  default_route :: "ipaddr option"
  dag_prefix0 :: "16 word"
  routes :: "uip_ds6_route list"

datatype coap_status = CONTENT_2_05 | BAD_OPTION_4_02 | NOT_ACCEPTABLE_4_06

record coap_response =
  status :: coap_status
  content_type :: "nat option"
  payload :: string

text \<open>The response as the engine hands it to a handler.\<close>

definition fresh_response :: coap_response where
  "fresh_response = \<lparr>status = CONTENT_2_05, content_type = None, payload = []\<rparr>"

definition dq :: char where
  "dq = CHR 0x22"

text \<open>
  Inner loop of the handler (lines 196-209): is the next hop of the route in a live slot
  of \<open>actual_routes\<close>?
\<close>

fun in_actual_routes :: "ipaddr \<Rightarrow> plexi_actual_route list \<Rightarrow> bool" where
  "in_actual_routes nh [] = False"
| "in_actual_routes nh (e # es) =
     (if route e = nh \<and> last_seen e \<noteq> - 1 then True else in_actual_routes nh es)"

text \<open>
  \<open>a <= b\<close> for a \<open>size_t\<close> \<open>a\<close> and a signed \<open>b\<close>, as on line 227: the comparison is
  unsigned, so a negative \<open>b\<close> is above \<open>a\<close>.
\<close>

definition size_le_signed :: "nat \<Rightarrow> int \<Rightarrow> bool" where
  "size_le_signed a b = (b < 0 \<or> int a \<le> b)"

text \<open>
  \<open>a - b > off\<close> for \<open>size_t\<close> \<open>a\<close>, \<open>b\<close> and a signed \<open>off\<close>, as on line 210: both
  sides are unsigned. The difference wraps to a large value when \<open>a < b\<close>, and so does
  a negative \<open>off\<close>; two wrapped values compare as the signed ones do.
\<close>

definition size_diff_gt_signed :: "nat \<Rightarrow> nat \<Rightarrow> int \<Rightarrow> bool" where
  "size_diff_gt_signed a b off =
     (if a < b then 0 \<le> off \<or> off < int a - int b
      else 0 \<le> off \<and> off < int a - int b)"

text \<open>Lines 200-205: one child, with a comma before it unless it is the first.\<close>

definition reply_child ::
  "plexi_config \<Rightarrow> bool \<Rightarrow> uip_ds6_route \<Rightarrow> nat \<Rightarrow> int \<Rightarrow> cursor \<Rightarrow> cursor" where
  "reply_child cfg first_item r preferred_size offset c =
     (let c1 = (if \<not> first_item then plexi_reply_char_if_possible CHR '','' preferred_size offset c
                else c);
          c2 = plexi_reply_char_if_possible dq preferred_size offset c1;
          c3 = plexi_reply_ip_if_possible (ip_text cfg) (ipaddr r) preferred_size offset c2
      in plexi_reply_char_if_possible dq preferred_size offset c3)"

text \<open>
  The loop over the route table (lines 193-213), with its early exit on line 210.
\<close>

fun reply_children ::
  "plexi_config \<Rightarrow> plexi_actual_route list \<Rightarrow> nat \<Rightarrow> int \<Rightarrow> uip_ds6_route list \<Rightarrow> bool \<Rightarrow> cursor \<Rightarrow> cursor" where
  "reply_children cfg tbl preferred_size offset [] first_item c = c"
| "reply_children cfg tbl preferred_size offset (r # rs) first_item c =
     (let found = in_actual_routes (nexthop r) tbl;
          c' = (if found then reply_child cfg first_item r preferred_size offset c else c);
          first_item' = (if found then False else first_item)
      in if bufpos c' > preferred_size \<and> size_diff_gt_signed (strpos c') (bufpos c') offset
         then c'
         else reply_children cfg tbl preferred_size offset rs first_item' c')"

text \<open>Lines 167-185: the parent section.\<close>

definition reply_parent :: "plexi_config \<Rightarrow> rpl_view \<Rightarrow> nat \<Rightarrow> int \<Rightarrow> cursor \<Rightarrow> cursor" where
  "reply_parent cfg v preferred_size offset c =
     (case default_route v of
        Some a \<Rightarrow>
          let c1 = plexi_reply_char_if_possible dq preferred_size offset c;
              c2 = plexi_reply_string_if_possible (DAG_PARENT_LABEL cfg) preferred_size offset c1;
              c3 = plexi_reply_string_if_possible (dq # '':['' @ [dq]) preferred_size offset c2;
              p = a[0 := dag_prefix0 v];
              c4 = plexi_reply_ip_if_possible (ip_text cfg) p preferred_size offset c3
          in plexi_reply_string_if_possible (dq # '']'') preferred_size offset c4
      | None \<Rightarrow>
          let c1 = plexi_reply_char_if_possible dq preferred_size offset c;
              c2 = plexi_reply_string_if_possible (DAG_PARENT_LABEL cfg) preferred_size offset c1
          in plexi_reply_string_if_possible (dq # '':[]'') preferred_size offset c2)"

text \<open>
  Lines 160-216 without the reset of the offset: one serialisation pass, from fresh
  counters to the closing \<open>]}\<close>.
\<close>

definition dag_reply ::
  "plexi_config \<Rightarrow> rpl_view \<Rightarrow> plexi_actual_route list \<Rightarrow> nat \<Rightarrow> int \<Rightarrow> cursor" where
  "dag_reply cfg v tbl preferred_size offset =
     (let c0 = \<lparr>buffer = [], bufpos = 0, strpos = 0\<rparr>;
          c1 = plexi_reply_char_if_possible CHR ''{'' preferred_size offset c0;
          c2 = reply_parent cfg v preferred_size offset c1;
          c3 = plexi_reply_string_if_possible ('','' @ [dq]) preferred_size offset c2;
          c4 = plexi_reply_string_if_possible (DAG_CHILD_LABEL cfg) preferred_size offset c3;
          c5 = plexi_reply_string_if_possible (dq # '':['') preferred_size offset c4;
          c6 = reply_children cfg tbl preferred_size offset (routes v) True c5
      in plexi_reply_string_if_possible '']}'' preferred_size offset c6)"

text \<open>What a call of the handler leaves behind.\<close>

record handler_result =
  res_response :: coap_response
  res_offset :: int
  res_new_notification :: "8 word"

text \<open>
  \<open>plexi_get_dag_handler\<close>. The accept option of the request is \<open>None\<close> when the
  header is absent (the local \<open>accept\<close> keeps its initial \<open>-1\<close>), the global
  \<open>new_notification\<close> is passed in and returned. The sum \<open>*offset + preferred_size\<close>
  is signed; line 227 compares \<open>strpos\<close> with it unsigned.
\<close>

definition plexi_get_dag_handler ::
  "plexi_config \<Rightarrow> rpl_view \<Rightarrow> plexi_actual_route list \<Rightarrow> 8 word \<Rightarrow> nat option \<Rightarrow>
   coap_response \<Rightarrow> nat \<Rightarrow> int \<Rightarrow> handler_result" where
  "plexi_get_dag_handler cfg v tbl new_notification accept response preferred_size offset =
     (if accept = None \<or> accept = Some (APPLICATION_JSON cfg) then
        let offset0 = (if new_notification \<noteq> 0 \<or> offset = - 1 then 0 else offset);
            c = dag_reply cfg v tbl preferred_size offset0;
            response1 =
              (if bufpos c > 0
               then response\<lparr>content_type := Some (APPLICATION_JSON cfg),
                              payload := take (bufpos c) (buffer c)\<rparr>
               else if strpos c > 0
               then response\<lparr>status := BAD_OPTION_4_02, payload := ''BlockOutOfScope''\<rparr>
               else response);
            offset1 = (if size_le_signed (strpos c) (offset0 + int preferred_size) then - 1
                       else offset0 + int preferred_size)
        in \<lparr>res_response = response1, res_offset = offset1, res_new_notification = 0\<rparr>
      else \<lparr>res_response = response\<lparr>status := NOT_ACCEPTABLE_4_06\<rparr>,
            res_offset = offset, res_new_notification = 0\<rparr>)"

text \<open>
  The response body by the grammar of section 6 of the specification, written out as one
  string: \<open>{"parent":["addr"] or [],"child":["addr",...]}\<close>, the children being the
  routes whose next hop is in a live slot, in table order. The serialisation pass is
  compared with it.
\<close>

fun comma_join :: "string list \<Rightarrow> string" where
  "comma_join [] = []"
| "comma_join [x] = x"
| "comma_join (x # y # ys) = x @ '','' @ comma_join (y # ys)"

definition quoted :: "string \<Rightarrow> string" where
  "quoted s = dq # s @ [dq]"

definition dag_text :: "plexi_config \<Rightarrow> rpl_view \<Rightarrow> plexi_actual_route list \<Rightarrow> string" where
  "dag_text cfg v tbl =
     ''{'' @ quoted (DAG_PARENT_LABEL cfg) @ '':['' @
     (case default_route v of
        None \<Rightarrow> []
      | Some a \<Rightarrow> quoted (ip_text cfg (a[0 := dag_prefix0 v]))) @
     '']'' @ '','' @ quoted (DAG_CHILD_LABEL cfg) @ '':['' @
     comma_join (map (\<lambda>r. quoted (ip_text cfg (ipaddr r)))
                     (filter (\<lambda>r. in_actual_routes (nexthop r) tbl) (routes v))) @
     '']}''"

text \<open>
  A client that fetches the whole body: it calls the handler with the offset the last
  call returned, starting from \<open>off\<close>, and appends the payloads until the handler
  returns \<open>-1\<close>. It gives up (\<open>None\<close>) on an error status or after \<open>fuel\<close> calls.
\<close>

fun fetch_all ::
  "nat \<Rightarrow> plexi_config \<Rightarrow> rpl_view \<Rightarrow> plexi_actual_route list \<Rightarrow> nat option \<Rightarrow> nat \<Rightarrow>
   8 word \<Rightarrow> int \<Rightarrow> string option" where
  "fetch_all 0 cfg v tbl accept preferred_size nn off = None"
| "fetch_all (Suc fuel) cfg v tbl accept preferred_size nn off =
     (let r = plexi_get_dag_handler cfg v tbl nn accept fresh_response preferred_size off
      in if status (res_response r) \<noteq> CONTENT_2_05 then None
         else if res_offset r = - 1 then Some (payload (res_response r))
         else map_option (\<lambda>rest. payload (res_response r) @ rest)
                (fetch_all fuel cfg v tbl accept preferred_size
                   (res_new_notification r) (res_offset r)))"

text \<open>A configuration and a routing view for the examples.\<close>

definition demo_ip_text :: "ipaddr \<Rightarrow> string" where
  "demo_ip_text a = map (\<lambda>w. if w = 0 then CHR ''0'' else if w = 1 then CHR ''1''
                             else if w = 2 then CHR ''2'' else CHR ''f'') a"

definition demo_config :: plexi_config where
  "demo_config = \<lparr>APPLICATION_JSON = 50, DAG_PARENT_LABEL = ''parent'',
     DAG_CHILD_LABEL = ''child'', ip_text = demo_ip_text\<rparr>"

definition demo_view :: rpl_view where
  "demo_view = \<lparr>default_route = Some addrC, dag_prefix0 = 0xaaaa,
     routes = [\<lparr>ipaddr = addrA, nexthop = addrA\<rparr>, \<lparr>ipaddr = addrC, nexthop = addrC\<rparr>,
               \<lparr>ipaddr = addrB, nexthop = addrB\<rparr>]\<rparr>"

definition demo_table :: "plexi_actual_route list" where
  "demo_table = [\<lparr>route = addrA, last_seen = 0\<rparr>, \<lparr>route = addrB, last_seen = 5\<rparr>]"

text \<open>
  The cursor \<open>c\<close> is where a pass with capacity \<open>bufsize\<close> and resumption offset
  \<open>offset\<close> stands after the logical output \<open>pre\<close>: the logical position is the
  length of \<open>pre\<close>, and the buffer holds the part of \<open>pre\<close> from the offset on, cut
  at the capacity.
\<close>

definition tracks :: "nat \<Rightarrow> int \<Rightarrow> string \<Rightarrow> cursor \<Rightarrow> bool" where
  "tracks bufsize offset pre c =
     (strpos c = length pre \<and> buffer c = take bufsize (drop (nat offset) pre)
      \<and> bufpos c = length (buffer c))"

text \<open>The quoted addresses of the reachable routes, and what the loop appends for them.\<close>

definition child_items ::
  "plexi_config \<Rightarrow> plexi_actual_route list \<Rightarrow> uip_ds6_route list \<Rightarrow> string list" where
  "child_items cfg tbl rs =
     map (\<lambda>r. quoted (ip_text cfg (ipaddr r))) (filter (\<lambda>r. in_actual_routes (nexthop r) tbl) rs)"

definition tail_text :: "bool \<Rightarrow> string list \<Rightarrow> string" where
  "tail_text first_item items =
     (if first_item then comma_join items else concat (map (\<lambda>x. CHR '','' # x) items))"

subsection \<open>Change notification\<close>

text \<open>
  The reason codes of the routing-change signal (\<open>UIP_DS6_NOTIFICATION_*\<close>, declared
  outside the sources).
\<close>

datatype ds6_event = DEFRT_ADD | DEFRT_RM | ROUTE_ADD | ROUTE_RM

text \<open>
  The globals behind the notification: the flag \<open>new_notification\<close>, the callback
  timer \<open>rpl_changed_timer\<close> (\<open>None\<close> when idle, else the time it fires), and a log of
  the times at which \<open>REST.notify_subscribers\<close> was called.
\<close>

record plexi_globals =
  new_notification :: "8 word"
  rpl_changed_timer :: "nat option"
  notified :: "nat list"

text \<open>
  Modelled from the spec: \<open>ctimer_set\<close> and the dispatch of an expired callback timer
  belong to the host scheduler, which is not among the sources. By section 3
  (DebounceTimer) and section 4.3 of the specification the timer is single-shot with the
  states idle and armed; setting it always arms it to \<open>now + interval\<close> and overwrites
  a pending arm; when it fires it becomes idle and runs its callback once.
\<close>

definition ctimer_set :: "nat \<Rightarrow> nat \<Rightarrow> nat option" where
  "ctimer_set now interval = Some (now + interval)"

text \<open>\<open>plexi_dag_event_handler\<close> and \<open>plexi_rpl_changed_handler\<close>, called at time \<open>now\<close>.\<close>

definition plexi_dag_event_handler :: "nat \<Rightarrow> plexi_globals \<Rightarrow> plexi_globals" where
  "plexi_dag_event_handler now g = g\<lparr>new_notification := 1, notified := notified g @ [now]\<rparr>"

definition plexi_rpl_changed_handler :: "nat \<Rightarrow> plexi_globals \<Rightarrow> plexi_globals" where
  "plexi_rpl_changed_handler now g = plexi_dag_event_handler now g"

text \<open>
  Modelled from the spec: the host runs the callback of the timer once its time has
  come (see \<open>ctimer_set\<close> above); the callback of \<open>rpl_changed_timer\<close> is
  \<open>plexi_rpl_changed_handler\<close>, run at the time the timer was armed to.
\<close>

definition ctimer_expire :: "nat \<Rightarrow> plexi_globals \<Rightarrow> plexi_globals" where
  "ctimer_expire now g =
     (case rpl_changed_timer g of
        None \<Rightarrow> g
      | Some t \<Rightarrow> if t \<le> now then plexi_rpl_changed_handler t (g\<lparr>rpl_changed_timer := None\<rparr>)
                 else g)"

text \<open>
  \<open>rpl_changed_callback\<close> at clock time \<open>now\<close>; \<open>clock_second\<close> is the platform's
  \<open>CLOCK_SECOND\<close>.
\<close>

definition rpl_changed_callback ::
  "nat \<Rightarrow> nat \<Rightarrow> ds6_event \<Rightarrow> plexi_globals \<Rightarrow> plexi_globals" where
  "rpl_changed_callback clock_second now event g =
     (if event = ROUTE_ADD \<or> event = ROUTE_RM
      then g\<lparr>rpl_changed_timer := ctimer_set now (unat PLEXI_RPL_UPDATE_INTERVAL * clock_second)\<rparr>
      else g)"

definition debounce_interval :: "nat \<Rightarrow> nat" where
  "debounce_interval clock_second = unat PLEXI_RPL_UPDATE_INTERVAL * clock_second"

text \<open>
  A run of the system over a list of time-stamped change signals: before each signal the
  host fires the timer if it is due.
\<close>

fun run_events :: "nat \<Rightarrow> (nat \<times> ds6_event) list \<Rightarrow> plexi_globals \<Rightarrow> plexi_globals" where
  "run_events clock_second [] g = g"
| "run_events clock_second ((t, ev) # evs) g =
     run_events clock_second evs (rpl_changed_callback clock_second t ev (ctimer_expire t g))"

text \<open>
  A burst: route-added and route-removed signals in time order, each less than
  \<open>interval\<close> after the one before.
\<close>

fun burst :: "nat \<Rightarrow> (nat \<times> ds6_event) list \<Rightarrow> bool" where
  "burst interval [] = True"
| "burst interval [(t, ev)] = (ev = ROUTE_ADD \<or> ev = ROUTE_RM)"
| "burst interval ((t, ev) # (u, ev') # evs) =
     ((ev = ROUTE_ADD \<or> ev = ROUTE_RM) \<and> t \<le> u \<and> u < t + interval
      \<and> burst interval ((u, ev') # evs))"

definition idle_globals :: plexi_globals where
  "idle_globals = \<lparr>new_notification = 0, rpl_changed_timer = None, notified = []\<rparr>"

section \<open>Properties of the reachability table\<close>

subsection \<open>Sizes and live slots\<close>

lemma length_refresh_first: "length (refresh_first a t tbl) = length tbl"
  by (induction tbl) simp_all

lemma length_claim_free: "length (claim_free a t tbl) = length tbl"
  by (induction tbl) simp_all

lemma length_packet_received: "length (plexi_rpl_packet_received a t tbl) = length tbl"
  by (simp add: plexi_rpl_packet_received_def length_refresh_first length_claim_free)

lemma length_observe_all: "length (observe_all obs tbl) = length tbl"
  by (induction obs tbl rule: observe_all.induct) (simp_all add: length_packet_received)

lemma entries_le_length: "length (entries tbl) \<le> length tbl"
  by (simp add: entries_def)

lemma entries_full_iff: "length (entries tbl) = length tbl \<longleftrightarrow> (\<forall>e \<in> set tbl. live e)"
  unfolding entries_def
  by (metis filter_True filter_id_conv length_filter_less less_irrefl_nat)

lemma entries_refresh_first_ge:
  "t \<noteq> - 1 \<Longrightarrow> length (entries tbl) \<le> length (entries (refresh_first a t tbl))"
  by (induction tbl) (simp_all add: entries_def live_def)

lemma entries_claim_free:
  "t \<noteq> - 1 \<Longrightarrow> length (entries (claim_free a t tbl)) =
     (if \<exists>e \<in> set tbl. \<not> live e then Suc (length (entries tbl)) else length (entries tbl))"
  by (induction tbl) (auto simp: entries_def live_def)

text \<open>While a slot is free, a received packet makes at least one more slot live.\<close>

lemma packet_received_grows:
  assumes "t \<noteq> - 1" and "length (entries tbl) < length tbl"
  shows "Suc (length (entries tbl)) \<le> length (entries (plexi_rpl_packet_received a t tbl))"
proof (cases "\<exists>e \<in> set (refresh_first a t tbl). \<not> live e")
  case True
  then show ?thesis
    using entries_refresh_first_ge [OF assms(1), of tbl a] assms(1)
    by (simp add: plexi_rpl_packet_received_def entries_claim_free)
next
  case False
  then have "length (entries (refresh_first a t tbl)) = length tbl"
    using entries_full_iff [of "refresh_first a t tbl"] by (simp add: length_refresh_first)
  with False assms show ?thesis
    by (simp add: plexi_rpl_packet_received_def entries_claim_free)
qed

lemma packet_received_mono:
  assumes "t \<noteq> - 1"
  shows "length (entries tbl) \<le> length (entries (plexi_rpl_packet_received a t tbl))"
  using entries_refresh_first_ge [OF assms, of tbl a] assms
  by (simp add: plexi_rpl_packet_received_def entries_claim_free)

lemma entries_observe_all:
  "\<forall>t \<in> snd ` set obs. t \<noteq> - 1 \<Longrightarrow>
   min (length tbl) (length (entries tbl) + length obs) \<le> length (entries (observe_all obs tbl))"
proof (induction obs tbl rule: observe_all.induct)
  case (1 tbl)
  then show ?case by (simp add: entries_le_length)
next
  case (2 a t obs tbl)
  have t: "t \<noteq> - 1" using 2 by simp
  let ?T = "plexi_rpl_packet_received a t tbl"
  have IH: "min (length ?T) (length (entries ?T) + length obs) \<le> length (entries (observe_all obs ?T))"
    using 2 by simp
  show ?case
  proof (cases "length (entries tbl) < length tbl")
    case True
    from packet_received_grows [OF t True, of a] IH show ?thesis
      by (simp add: length_packet_received)
  next
    case False
    then have "length (entries tbl) = length tbl" using entries_le_length [of tbl] by simp
    with packet_received_mono [OF t, of tbl a] entries_le_length [of ?T]
    have "length (entries ?T) = length tbl" by (simp add: length_packet_received)
    with IH show ?thesis by (simp add: length_packet_received)
  qed
qed

subsection \<open>Addresses of the live slots\<close>

lemma live_routes_refresh_first:
  "route ` set (entries (refresh_first a t tbl)) \<subseteq> insert a (route ` set (entries tbl))"
  by (induction tbl) (auto simp: entries_def live_def)

lemma live_routes_claim_free:
  "route ` set (entries (claim_free a t tbl)) \<subseteq> insert a (route ` set (entries tbl))"
  by (induction tbl) (auto simp: entries_def live_def)

lemma live_routes_packet_received:
  "route ` set (entries (plexi_rpl_packet_received a t tbl)) \<subseteq> insert a (route ` set (entries tbl))"
  using live_routes_claim_free [of a t "refresh_first a t tbl"] live_routes_refresh_first [of a t tbl]
  by (auto simp: plexi_rpl_packet_received_def)

lemma live_routes_observe_all:
  "route ` set (entries (observe_all obs tbl)) \<subseteq> fst ` set obs \<union> route ` set (entries tbl)"
proof (induction obs tbl rule: observe_all.induct)
  case (1 tbl)
  then show ?case by simp
next
  case (2 a t obs tbl)
  have "route ` set (entries (observe_all obs (plexi_rpl_packet_received a t tbl)))
      \<subseteq> fst ` set obs \<union> route ` set (entries (plexi_rpl_packet_received a t tbl))"
    using 2 by simp
  also have "\<dots> \<subseteq> fst ` set obs \<union> insert a (route ` set (entries tbl))"
    using live_routes_packet_received [of a t tbl] by blast
  finally show ?case by auto
qed

lemma refresh_first_absent: "a \<notin> route ` set tbl \<Longrightarrow> refresh_first a t tbl = tbl"
  by (induction tbl) auto

lemma claim_free_full: "\<forall>e \<in> set tbl. live e \<Longrightarrow> claim_free a t tbl = tbl"
  by (induction tbl) (auto simp: live_def)

subsection \<open>Bounded table\<close>

text \<open>
  Claim C7. Start from a table whose slots are all free and feed it as many packets as
  it has slots, from pairwise distinct senders, with no sweep in between (time stamps
  other than the free marker). Then every slot is live, so there are exactly as many
  entries as slots; one more sender, distinct from the others, is in no slot, and the
  packet from it leaves the table as it is.
\<close>

theorem bounded_table_silent_drop:
  assumes empty: "\<forall>e \<in> set tbl. last_seen e = - 1"
    and n: "length obs = length tbl"
    and dist: "distinct (map fst obs @ [a])"
    and times: "\<forall>t \<in> snd ` set obs. t \<noteq> - 1"
  shows "length (entries (observe_all obs tbl)) = length tbl
       \<and> length (observe_all obs tbl) = length tbl
       \<and> a \<notin> route ` set (observe_all obs tbl)
       \<and> plexi_rpl_packet_received a t (observe_all obs tbl) = observe_all obs tbl"
proof -
  let ?T = "observe_all obs tbl"
  have len: "length ?T = length tbl" by (rule length_observe_all)
  have "length tbl \<le> length (entries ?T)"
    using entries_observe_all [OF times, of tbl] n by simp
  with entries_le_length [of ?T] len have full: "length (entries ?T) = length tbl" by simp
  then have all_live: "\<forall>e \<in> set ?T. live e" using entries_full_iff [of ?T] len by simp
  then have ent: "entries ?T = ?T" by (simp add: entries_def)
  have "entries tbl = []" using empty by (simp add: entries_def live_def)
  with live_routes_observe_all [of obs tbl] have "route ` set (entries ?T) \<subseteq> fst ` set obs" by simp
  with ent dist have absent: "a \<notin> route ` set ?T" by auto
  have "plexi_rpl_packet_received a t ?T = ?T"
    using absent all_live
    by (simp add: plexi_rpl_packet_received_def refresh_first_absent claim_free_full)
  with full len absent show ?thesis by simp
qed

text \<open>
  The scenario of the specification: two slots, packets from A at 0 and from B at 5, then
  one from C at 6.
\<close>

theorem bounded_table_silent_drop_witness:
  "length (entries (observe_all [(addrA, 0), (addrB, 5)] (boot_table 2))) = 2
   \<and> addrC \<notin> route ` set (observe_all [(addrA, 0), (addrB, 5)] (boot_table 2))
   \<and> plexi_rpl_packet_received addrC 6 (observe_all [(addrA, 0), (addrB, 5)] (boot_table 2))
       = observe_all [(addrA, 0), (addrB, 5)] (boot_table 2)"
proof -
  have h1: "\<forall>e \<in> set (boot_table 2). last_seen e = - 1" by code_simp
  have h2: "length [(addrA, 0 :: 32 word), (addrB, 5)] = length (boot_table 2)" by code_simp
  have h3: "distinct (map fst [(addrA, 0 :: 32 word), (addrB, 5)] @ [addrC])" by code_simp
  have h4: "\<forall>t \<in> snd ` set [(addrA, 0 :: 32 word), (addrB, 5)]. t \<noteq> - 1" by simp
  have len: "length (boot_table 2) = 2" by code_simp
  show ?thesis using bounded_table_silent_drop [OF h1 h2 h3 h4, of 6] len by simp
qed

subsection \<open>Repeated packets from one sender\<close>

text \<open>
  Claim C2 says that packets from one sender never give two entries for it. The source
  tests \<open>updated\<close> before it claims a free slot, but never sets it, so the second packet
  from A refreshes the slot of A and then claims the next free slot for A as well.
\<close>

theorem packet_received_twice_duplicates:
  "observe_all [(addrA, 1), (addrA, 2)] (boot_table 2)
     = [\<lparr>route = addrA, last_seen = 2\<rparr>, \<lparr>route = addrA, last_seen = 2\<rparr>]"
  by code_simp

subsection \<open>Sweep\<close>

lemma stale_test_iff:
  assumes "30 \<le> unat now"
  shows "(ls < now - PLEXI_RPL_UPDATE_INTERVAL) = (unat ls + 30 < unat now)"
proof -
  have "(30 :: 32 word) \<le> now" using assms by (simp add: word_le_nat_alt)
  then have "unat (now - 30) = unat now - 30" by (simp add: unat_sub)
  then show ?thesis using assms
    by (auto simp: PLEXI_RPL_UPDATE_INTERVAL_def word_less_nat_alt)
qed

text \<open>
  Once the clock has passed the interval, the slots before the first one that is older
  than the interval are unchanged, that slot is marked free, and every slot after it is
  unchanged, older or not: one sweep frees at most one entry, and a later old entry
  waits for a later sweep.
\<close>

lemma sweep_after_interval:
  assumes "30 \<le> unat now"
  shows "sweep now tbl =
     takeWhile (\<lambda>e. \<not> older now e) tbl @
     (case dropWhile (\<lambda>e. \<not> older now e) tbl of
        [] \<Rightarrow> []
      | e # es \<Rightarrow> e\<lparr>last_seen := - 1\<rparr> # es)"
  by (induction tbl) (simp_all add: stale_test_iff [OF assms] older_def)

text \<open>The scenario of the specification: at 31 the sweep frees A, heard at 0, and not B.\<close>

lemma sweep_at_31:
  "sweep 31 [\<lparr>route = addrA, last_seen = 0\<rparr>, \<lparr>route = addrB, last_seen = 5\<rparr>]
     = [\<lparr>route = addrA, last_seen = - 1\<rparr>, \<lparr>route = addrB, last_seen = 5\<rparr>]"
proof -
  have h: "30 \<le> unat (31 :: 32 word)" by simp
  show ?thesis
    using sweep_after_interval [OF h, of "[\<lparr>route = addrA, last_seen = 0\<rparr>, \<lparr>route = addrB, last_seen = 5\<rparr>]"]
    by (simp add: older_def)
qed

text \<open>Two old entries take two sweeps, one each.\<close>

lemma sweep_twice:
  "sweep 100 [\<lparr>route = addrA, last_seen = 0\<rparr>, \<lparr>route = addrB, last_seen = 5\<rparr>]
     = [\<lparr>route = addrA, last_seen = - 1\<rparr>, \<lparr>route = addrB, last_seen = 5\<rparr>]
   \<and> sweep 100 (sweep 100 [\<lparr>route = addrA, last_seen = 0\<rparr>, \<lparr>route = addrB, last_seen = 5\<rparr>])
     = [\<lparr>route = addrA, last_seen = - 1\<rparr>, \<lparr>route = addrB, last_seen = - 1\<rparr>]"
  by code_simp

text \<open>
  While the clock is below the interval the first live slot is freed whatever its age,
  because the difference on line 318 wraps and every time stamp of a live slot is below
  it.
\<close>

lemma sweep_before_interval:
  assumes "unat now < 30" and "last_seen e \<noteq> - 1" and "unat (last_seen e) \<le> unat now"
  shows "sweep now (e # es) = e\<lparr>last_seen := - 1\<rparr> # es"
proof -
  have "unat (now - 30) = 2 ^ 32 + unat now - 30"
    using assms(1) by (simp add: unat_sub_if_size word_size)
  then have "unat (last_seen e) < unat (now - 30)"
    using assms(1,3) by simp
  then show ?thesis
    by (simp add: PLEXI_RPL_UPDATE_INTERVAL_def word_less_nat_alt)
qed

text \<open>
  Claim C5 says that a sweep never frees an entry whose age is within the threshold. The
  difference \<open>clock_seconds() - PLEXI_RPL_UPDATE_INTERVAL\<close> on line 318 is unsigned and
  wraps while the clock is below 30. At clock 5 the entry heard at 4 has age 1, it is not
  older than the interval, and the sweep frees it.
\<close>

theorem sweep_frees_fresh_entry:
  "\<not> older 5 \<lparr>route = addrA, last_seen = 4\<rparr>
   \<and> sweep 5 [\<lparr>route = addrA, last_seen = 4\<rparr>] = [\<lparr>route = addrA, last_seen = - 1\<rparr>]"
  by code_simp

section \<open>Properties of the serialisation\<close>

subsection \<open>The pass follows the response body\<close>

lemma try_emit_tracks:
  assumes "tracks bufsize offset pre c"
  shows "tracks bufsize offset (pre @ item) (try_emit item bufsize offset c)"
proof (cases "offset \<noteq> - 1 \<and> int (strpos c + length item) \<le> offset")
  case True
  with assms show ?thesis by (auto simp: tracks_def try_emit_def)
next
  case False
  show ?thesis
  proof (cases "int (length pre) \<le> offset")
    case True
    with assms False show ?thesis
      by (auto simp: tracks_def try_emit_def Let_def nat_diff_distrib)
  next
    case False2: False
    then have "nat offset \<le> length pre" by linarith
    moreover have "nat (offset - int (length pre)) = 0" using False2 by simp
    ultimately show ?thesis using assms False
      by (auto simp: tracks_def try_emit_def Let_def min_def)
  qed
qed

lemma char_tracks:
  "tracks bufsize offset pre c \<Longrightarrow>
   tracks bufsize offset (pre @ [ch]) (plexi_reply_char_if_possible ch bufsize offset c)"
  unfolding plexi_reply_char_if_possible_def by (rule try_emit_tracks)

lemma string_tracks:
  "tracks bufsize offset pre c \<Longrightarrow>
   tracks bufsize offset (pre @ s) (plexi_reply_string_if_possible s bufsize offset c)"
  unfolding plexi_reply_string_if_possible_def by (rule try_emit_tracks)

lemma ip_tracks:
  "tracks bufsize offset pre c \<Longrightarrow>
   tracks bufsize offset (pre @ fmt a) (plexi_reply_ip_if_possible fmt a bufsize offset c)"
  unfolding plexi_reply_ip_if_possible_def by (rule try_emit_tracks)

lemma tracks_bufpos_le: "tracks bufsize offset pre c \<Longrightarrow> bufpos c \<le> bufsize"
  by (simp add: tracks_def)

lemma reply_child_tracks:
  assumes "tracks bufsize offset pre c"
  shows "tracks bufsize offset
           (pre @ (if first_item then [] else '','') @ quoted (ip_text cfg (ipaddr r)))
           (reply_child cfg first_item r bufsize offset c)"
proof -
  let ?c1 = "if \<not> first_item then plexi_reply_char_if_possible CHR '','' bufsize offset c else c"
  have 1: "tracks bufsize offset (pre @ (if first_item then [] else '','')) ?c1"
    using assms char_tracks [OF assms, of "CHR '',''"] by simp
  from ip_tracks [OF char_tracks [OF 1, of dq], of "ip_text cfg" "ipaddr r"]
  have "tracks bufsize offset
          (((pre @ (if first_item then [] else '','')) @ [dq]) @ ip_text cfg (ipaddr r))
          (plexi_reply_ip_if_possible (ip_text cfg) (ipaddr r) bufsize offset
             (plexi_reply_char_if_possible dq bufsize offset ?c1))" .
  from char_tracks [OF this, of dq] show ?thesis
    by (simp add: reply_child_def Let_def quoted_def)
qed

lemma comma_join_Cons: "comma_join (x # xs) = x @ concat (map (\<lambda>y. CHR '','' # y) xs)"
  by (induction xs arbitrary: x) simp_all

lemma tail_text_Cons:
  "tail_text first_item (x # xs) = (if first_item then [] else '','') @ x @ tail_text False xs"
  by (simp add: tail_text_def comma_join_Cons)

lemma reply_children_tracks:
  "tracks bufsize offset pre c \<Longrightarrow>
   tracks bufsize offset (pre @ tail_text first_item (child_items cfg tbl rs))
     (reply_children cfg tbl bufsize offset rs first_item c)"
proof (induction rs arbitrary: pre c first_item)
  case Nil
  then show ?case by (simp add: child_items_def tail_text_def)
next
  case (Cons r rs)
  show ?case
  proof (cases "in_actual_routes (nexthop r) tbl")
    case True
    let ?c' = "reply_child cfg first_item r bufsize offset c"
    let ?pre' = "pre @ (if first_item then [] else '','') @ quoted (ip_text cfg (ipaddr r))"
    have t: "tracks bufsize offset ?pre' ?c'" by (rule reply_child_tracks [OF Cons.prems])
    have nb: "\<not> bufsize < bufpos ?c'" using tracks_bufpos_le [OF t] by simp
    have items: "child_items cfg tbl (r # rs) = quoted (ip_text cfg (ipaddr r)) # child_items cfg tbl rs"
      using True by (simp add: child_items_def)
    from Cons.IH [OF t, of False] True nb show ?thesis
      by (simp add: items tail_text_Cons Let_def)
  next
    case False
    have nb: "\<not> bufsize < bufpos c" using tracks_bufpos_le [OF Cons.prems] by simp
    have items: "child_items cfg tbl (r # rs) = child_items cfg tbl rs"
      using False by (simp add: child_items_def)
    from Cons.IH [OF Cons.prems, of first_item] False nb show ?thesis
      by (simp add: items Let_def)
  qed
qed

lemma reply_parent_tracks:
  assumes "tracks bufsize offset pre c"
  shows "tracks bufsize offset
           (pre @ quoted (DAG_PARENT_LABEL cfg) @ '':['' @
              (case default_route v of None \<Rightarrow> []
               | Some a \<Rightarrow> quoted (ip_text cfg (a[0 := dag_prefix0 v]))) @ '']'')
           (reply_parent cfg v bufsize offset c)"
proof (cases "default_route v")
  case None
  from string_tracks [OF string_tracks [OF char_tracks [OF assms, of dq], of "DAG_PARENT_LABEL cfg"], of "dq # '':[]''"]
  show ?thesis using None by (simp add: reply_parent_def Let_def quoted_def)
next
  case (Some a)
  from string_tracks [OF ip_tracks [OF string_tracks [OF string_tracks [OF char_tracks [OF assms, of dq],
      of "DAG_PARENT_LABEL cfg"], of "dq # '':['' @ [dq]"], of "ip_text cfg" "a[0 := dag_prefix0 v]"], of "dq # '']''"]
  show ?thesis using Some by (simp add: reply_parent_def Let_def quoted_def)
qed

lemma tracks_empty: "tracks bufsize offset [] \<lparr>buffer = [], bufpos = 0, strpos = 0\<rparr>"
  by (simp add: tracks_def)

lemma dag_reply_tracks:
  "tracks bufsize offset (dag_text cfg v tbl) (dag_reply cfg v tbl bufsize offset)"
proof -
  let ?c1 = "plexi_reply_char_if_possible CHR ''{'' bufsize offset \<lparr>buffer = [], bufpos = 0, strpos = 0\<rparr>"
  have 1: "tracks bufsize offset ''{'' ?c1"
    using char_tracks [OF tracks_empty, of bufsize offset "CHR ''{''"] by simp
  note 2 = reply_parent_tracks [OF 1, of cfg v]
  note 3 = string_tracks [OF 2, of "'','' @ [dq]"]
  note 4 = string_tracks [OF 3, of "DAG_CHILD_LABEL cfg"]
  note 5 = string_tracks [OF 4, of "dq # '':[''"]
  note 6 = reply_children_tracks [OF 5, of True cfg tbl "routes v"]
  note 7 = string_tracks [OF 6, of "'']}''"]
  show ?thesis using 7
    by (simp add: dag_reply_def dag_text_def Let_def quoted_def tail_text_def child_items_def)
qed

lemma dag_text_nonempty: "0 < length (dag_text cfg v tbl)"
  by (simp add: dag_text_def)

lemma dag_reply_strpos: "strpos (dag_reply cfg v tbl bufsize offset) = length (dag_text cfg v tbl)"
  using dag_reply_tracks [of bufsize offset cfg v tbl] by (simp add: tracks_def)

lemma dag_reply_buffer:
  "buffer (dag_reply cfg v tbl bufsize offset) = take bufsize (drop (nat offset) (dag_text cfg v tbl))"
  using dag_reply_tracks [of bufsize offset cfg v tbl] by (simp add: tracks_def)

lemma dag_reply_bufpos:
  "bufpos (dag_reply cfg v tbl bufsize offset) = min (length (dag_text cfg v tbl) - nat offset) bufsize"
  using dag_reply_tracks [of bufsize offset cfg v tbl] by (simp add: tracks_def)

subsection \<open>Logical length\<close>

text \<open>
  Claim C9. At the end of a serialisation pass the logical position \<open>strpos\<close> is the
  length of the whole response body, whatever the buffer capacity and the resumption
  offset were: the early exit of the route loop is never taken, every route is visited,
  and skipped or cut items are counted in full. So two passes over the same state end
  with the same \<open>strpos\<close>.
\<close>

theorem strpos_is_total_length:
  "strpos (dag_reply cfg v tbl preferred_size offset) = length (dag_text cfg v tbl)
   \<and> strpos (dag_reply cfg v tbl preferred_size offset) = strpos (dag_reply cfg v tbl preferred_size' offset')"
  by (simp add: dag_reply_strpos)

subsection \<open>Cursor advancement\<close>




text \<open>With the writers of section 4.1 the logical position at the end is the length of the body.\<close>

lemma cursor_advance_total:
  assumes "accept = None \<or> accept = Some (APPLICATION_JSON cfg)"
  shows "res_offset (plexi_get_dag_handler cfg v tbl nn accept response preferred_size offset) =
     (let offset0 = (if nn \<noteq> 0 \<or> offset = - 1 then 0 else offset)
      in if offset0 + int preferred_size < 0
            \<or> int (length (dag_text cfg v tbl)) \<le> offset0 + int preferred_size
         then - 1
         else offset0 + int preferred_size)"
  using assms
  by (cases accept)
     (simp_all add: plexi_get_dag_handler_def Let_def size_le_signed_def dag_reply_strpos)

subsection \<open>Chunk completeness\<close>

text \<open>One accepted call at an offset inside the body returns the bytes from there on.\<close>

lemma handler_chunk:
  assumes ok: "accept = None \<or> accept = Some (APPLICATION_JSON cfg)"
    and k: "0 \<le> k" "k < int (length (dag_text cfg v tbl))" and sz: "0 < preferred_size"
  shows "plexi_get_dag_handler cfg v tbl 0 accept fresh_response preferred_size k =
     \<lparr>res_response = fresh_response\<lparr>content_type := Some (APPLICATION_JSON cfg),
          payload := take preferred_size (drop (nat k) (dag_text cfg v tbl))\<rparr>,
      res_offset = (if int (length (dag_text cfg v tbl)) \<le> k + int preferred_size then - 1
                    else k + int preferred_size),
      res_new_notification = 0\<rparr>"
proof -
  have k1: "k \<noteq> - 1" using k by simp
  have pos: "0 < bufpos (dag_reply cfg v tbl preferred_size k)"
    using k sz by (simp add: dag_reply_bufpos)
  have "take (bufpos (dag_reply cfg v tbl preferred_size k)) (buffer (dag_reply cfg v tbl preferred_size k))
      = take preferred_size (drop (nat k) (dag_text cfg v tbl))"
    by (simp add: dag_reply_bufpos dag_reply_buffer min_def)
  then show ?thesis
    using ok k1 pos k(1)
    by (cases accept)
       (simp_all add: plexi_get_dag_handler_def Let_def dag_reply_strpos size_le_signed_def)
qed

lemma handler_start:
  "accept = None \<or> accept = Some (APPLICATION_JSON cfg) \<Longrightarrow>
   plexi_get_dag_handler cfg v tbl nn accept response preferred_size (- 1)
     = plexi_get_dag_handler cfg v tbl 0 accept response preferred_size 0"
  by (auto simp: plexi_get_dag_handler_def)

lemma fetch_all_from:
  assumes ok: "accept = None \<or> accept = Some (APPLICATION_JSON cfg)" and sz: "0 < preferred_size"
  shows "0 \<le> k \<Longrightarrow> k < int (length (dag_text cfg v tbl)) \<Longrightarrow>
         length (dag_text cfg v tbl) - nat k \<le> fuel \<Longrightarrow>
         fetch_all fuel cfg v tbl accept preferred_size 0 k = Some (drop (nat k) (dag_text cfg v tbl))"
proof (induction fuel arbitrary: k)
  case 0
  then show ?case by simp
next
  case (Suc fuel)
  let ?L = "length (dag_text cfg v tbl)"
  note hc = handler_chunk [OF ok Suc.prems(1,2) sz]
  show ?case
  proof (cases "int ?L \<le> k + int preferred_size")
    case True
    then have "?L - nat k \<le> preferred_size" using Suc.prems by linarith
    then show ?thesis using True hc by (simp add: fresh_response_def)
  next
    case False
    have a: "0 \<le> k + int preferred_size" using Suc.prems by simp
    have b: "k + int preferred_size < int ?L" using False by simp
    have c: "?L - nat (k + int preferred_size) \<le> fuel" using Suc.prems sz by linarith
    have d: "k + int preferred_size \<noteq> - 1" using a by simp
    have n: "nat (k + int preferred_size) = nat k + preferred_size" using Suc.prems by linarith
    have "take preferred_size (drop (nat k) (dag_text cfg v tbl)) @ drop (nat k + preferred_size) (dag_text cfg v tbl)
        = drop (nat k) (dag_text cfg v tbl)"
      by (metis add.commute append_take_drop_id drop_drop)
    with Suc.IH [OF a b c] False hc d n show ?thesis
      by (simp add: fresh_response_def)
  qed
qed

text \<open>
  Claim C1. For an accepted request and a block size of at least one byte, the client
  that starts from the sentinel \<open>-1\<close> and follows the returned offsets until \<open>-1\<close>
  comes back terminates (any fuel of at least the length of the body suffices) and the
  payloads it appends are exactly the payload of one call with a block that holds the
  whole body, which returns \<open>-1\<close> at once; both are the response body of the state.
\<close>

theorem chunk_completeness:
  assumes ok: "accept = None \<or> accept = Some (APPLICATION_JSON cfg)"
    and sz: "0 < preferred_size"
    and fuel: "length (dag_text cfg v tbl) \<le> fuel"
    and big: "length (dag_text cfg v tbl) \<le> whole"
  shows "fetch_all fuel cfg v tbl accept preferred_size nn (- 1)
           = Some (payload (res_response
               (plexi_get_dag_handler cfg v tbl nn' accept fresh_response whole (- 1))))
       \<and> res_offset (plexi_get_dag_handler cfg v tbl nn' accept fresh_response whole (- 1)) = - 1
       \<and> payload (res_response
               (plexi_get_dag_handler cfg v tbl nn' accept fresh_response whole (- 1)))
           = dag_text cfg v tbl"
proof -
  let ?L = "length (dag_text cfg v tbl)"
  have L: "0 < ?L" by (rule dag_text_nonempty)
  then obtain f where f: "fuel = Suc f" using fuel by (cases fuel) auto
  have "fetch_all fuel cfg v tbl accept preferred_size nn (- 1)
      = fetch_all fuel cfg v tbl accept preferred_size 0 0"
    by (simp add: f handler_start [OF ok])
  also have "\<dots> = Some (dag_text cfg v tbl)"
    using fetch_all_from [OF ok sz, of 0 v tbl fuel] L fuel by simp
  finally have 1: "fetch_all fuel cfg v tbl accept preferred_size nn (- 1) = Some (dag_text cfg v tbl)" .
  have w: "0 < whole" using L big by linarith
  have 2: "plexi_get_dag_handler cfg v tbl nn' accept fresh_response whole (- 1)
      = \<lparr>res_response = fresh_response\<lparr>content_type := Some (APPLICATION_JSON cfg),
            payload := dag_text cfg v tbl\<rparr>, res_offset = - 1, res_new_notification = 0\<rparr>"
    using handler_chunk [OF ok _ _ w, of 0 v tbl] L big by (simp add: handler_start [OF ok])
  show ?thesis using 1 2 by simp
qed

theorem chunk_completeness_witness:
  "fetch_all 55 demo_config demo_view demo_table None 16 1 (- 1)
     = Some (payload (res_response
         (plexi_get_dag_handler demo_config demo_view demo_table 0 None fresh_response 64 (- 1))))"
proof -
  have h: "(None :: nat option) = None \<or> None = Some (APPLICATION_JSON demo_config)" by simp
  have L: "length (dag_text demo_config demo_view demo_table) = 55" by code_simp
  show ?thesis
    using chunk_completeness [OF h, of 16 demo_view demo_table 55 64 1 0] L by simp
qed

subsection \<open>Requests that do not accept JSON\<close>

text \<open>
  Claim C3, as the code has it. When the accept option is present and is not JSON, the
  handler sets the status to 4.06, leaves the response otherwise and the offset as they
  were, and sets \<open>new_notification\<close> to 0.
\<close>

theorem not_acceptable_clears_flag:
  assumes "accept = Some a" and "a \<noteq> APPLICATION_JSON cfg"
  shows "plexi_get_dag_handler cfg v tbl nn accept response preferred_size offset =
     \<lparr>res_response = response\<lparr>status := NOT_ACCEPTABLE_4_06\<rparr>,
      res_offset = offset, res_new_notification = 0\<rparr>"
  using assms by (simp add: plexi_get_dag_handler_def)

theorem not_acceptable_clears_flag_witness:
  "plexi_get_dag_handler demo_config demo_view demo_table 1 (Some 0) fresh_response 16 32 =
     \<lparr>res_response = fresh_response\<lparr>status := NOT_ACCEPTABLE_4_06\<rparr>,
      res_offset = 32, res_new_notification = 0\<rparr>"
proof -
  have h: "(0 :: nat) \<noteq> APPLICATION_JSON demo_config" by (simp add: demo_config_def)
  show ?thesis using not_acceptable_clears_flag [OF refl h] .
qed

text \<open>
  The claim says that no state is changed, the notification flag included: with the flag
  at 1 and an accept option of 0 (text/plain) the flag is not 1 after the call.
\<close>

theorem not_acceptable_changes_flag:
  "res_new_notification
     (plexi_get_dag_handler demo_config demo_view demo_table 1 (Some 0) fresh_response 16 32) \<noteq> 1"
  by (simp add: plexi_get_dag_handler_def demo_config_def)

subsection \<open>Nothing written\<close>

text \<open>
  Claim C8, as the code has it. When an accepted call ends its pass with nothing in the
  buffer although the logical output is not empty, the response is not an empty success:
  its status is 4.02 (bad option) and its payload the text \<open>BlockOutOfScope\<close>.
\<close>

theorem nothing_written_is_block_out_of_scope:
  assumes "accept = None \<or> accept = Some (APPLICATION_JSON cfg)"
    and "bufpos (dag_reply cfg v tbl preferred_size (if nn \<noteq> 0 \<or> offset = - 1 then 0 else offset)) = 0"
    and "0 < strpos (dag_reply cfg v tbl preferred_size (if nn \<noteq> 0 \<or> offset = - 1 then 0 else offset))"
  shows "res_response (plexi_get_dag_handler cfg v tbl nn accept response preferred_size offset)
           = response\<lparr>status := BAD_OPTION_4_02, payload := ''BlockOutOfScope''\<rparr>"
  using assms by (auto simp: plexi_get_dag_handler_def Let_def)

theorem nothing_written_is_block_out_of_scope_witness:
  "res_response (plexi_get_dag_handler demo_config demo_view demo_table 0 None fresh_response 0 (- 1))
     = fresh_response\<lparr>status := BAD_OPTION_4_02, payload := ''BlockOutOfScope''\<rparr>"
proof -
  have h: "(None :: nat option) = None \<or> None = Some (APPLICATION_JSON demo_config)" by simp
  have b: "bufpos (dag_reply demo_config demo_view demo_table 0
             (if (0 :: 8 word) \<noteq> 0 \<or> (- 1 :: int) = - 1 then 0 else - 1)) = 0"
    by (simp add: dag_reply_bufpos)
  have s: "0 < strpos (dag_reply demo_config demo_view demo_table 0
             (if (0 :: 8 word) \<noteq> 0 \<or> (- 1 :: int) = - 1 then 0 else - 1))"
    using dag_text_nonempty [of demo_config demo_view demo_table] by (simp add: dag_reply_strpos)
  show ?thesis using nothing_written_is_block_out_of_scope [OF h b s] .
qed

text \<open>
  The claim asks for a condition of its own for a block too small to make progress. A
  block size of 0 writes nothing, and the response is the very response of a call whose
  offset (1000) lies beyond the end of the body: the two cases are not told apart.
\<close>

theorem no_progress_same_as_out_of_scope:
  "bufpos (dag_reply demo_config demo_view demo_table 0 0) = 0
   \<and> 0 < strpos (dag_reply demo_config demo_view demo_table 0 0)
   \<and> res_response (plexi_get_dag_handler demo_config demo_view demo_table 0 None fresh_response 0 (- 1))
     = res_response (plexi_get_dag_handler demo_config demo_view demo_table 0 None fresh_response 16 1000)"
  by code_simp

subsection \<open>The notification flag\<close>

text \<open>
  Claim C10. Every call of the handler, accepted or not, leaves \<open>new_notification\<close> at
  0. After \<open>plexi_dag_event_handler\<close> has set the flag, the next accepted call runs
  its pass from offset 0, whatever offset the caller passed: the response is built from
  that pass, a block with its bytes or the error when it wrote none, and the offset
  returned is \<open>-1\<close> when the pass ended within the block and \<open>preferred_size\<close>
  otherwise, that is 0 advanced by the block.
\<close>

theorem handler_clears_flag:
  assumes "accept = None \<or> accept = Some (APPLICATION_JSON cfg)"
  shows "res_new_notification
           (plexi_get_dag_handler cfg v tbl nn any_accept response preferred_size offset) = 0
       \<and> plexi_get_dag_handler cfg v tbl (new_notification (plexi_dag_event_handler now g))
             accept response preferred_size offset
         = (let c = dag_reply cfg v tbl preferred_size 0
            in \<lparr>res_response =
                   (if 0 < bufpos c
                    then response\<lparr>content_type := Some (APPLICATION_JSON cfg),
                                   payload := take (bufpos c) (buffer c)\<rparr>
                    else if 0 < strpos c
                    then response\<lparr>status := BAD_OPTION_4_02, payload := ''BlockOutOfScope''\<rparr>
                    else response),
                 res_offset = (if strpos c \<le> preferred_size then - 1 else int preferred_size),
                 res_new_notification = 0\<rparr>)"
  using assms
  by (cases accept)
     (simp_all add: plexi_get_dag_handler_def Let_def plexi_dag_event_handler_def
        size_le_signed_def)

text \<open>
  After a notification the call with offset 32 answers with the first 16 bytes of the
  example body and the next offset 16.
\<close>

theorem handler_clears_flag_witness:
  "res_new_notification
     (plexi_get_dag_handler demo_config demo_view demo_table 1 (Some 0) fresh_response 16 32) = 0
   \<and> plexi_get_dag_handler demo_config demo_view demo_table
         (new_notification (plexi_dag_event_handler 69 idle_globals)) None fresh_response 16 32
       = \<lparr>res_response = fresh_response\<lparr>content_type := Some 50,
              payload := take 16 (dag_text demo_config demo_view demo_table)\<rparr>,
           res_offset = 16, res_new_notification = 0\<rparr>"
proof -
  have h: "(None :: nat option) = None \<or> None = Some (APPLICATION_JSON demo_config)" by simp
  have c: "dag_reply demo_config demo_view demo_table 16 0
      = \<lparr>buffer = take 16 (dag_text demo_config demo_view demo_table), bufpos = 16, strpos = 55\<rparr>"
    by code_simp
  have j: "APPLICATION_JSON demo_config = 50" by (simp add: demo_config_def)
  show ?thesis
    using handler_clears_flag [OF h, of demo_view demo_table 1 "Some 0" fresh_response 16 32 69 idle_globals]
    by (simp add: c j)
qed

text \<open>
  With the writers of section 4.1 and a block of at least one byte, that response is the
  first block of the body.
\<close>

lemma flagged_call_first_block:
  assumes "accept = None \<or> accept = Some (APPLICATION_JSON cfg)" and "0 < preferred_size"
  shows "plexi_get_dag_handler cfg v tbl (new_notification (plexi_dag_event_handler now g))
           accept response preferred_size offset
       = \<lparr>res_response = response\<lparr>content_type := Some (APPLICATION_JSON cfg),
              payload := take preferred_size (dag_text cfg v tbl)\<rparr>,
           res_offset = (if length (dag_text cfg v tbl) \<le> preferred_size then - 1
                         else int preferred_size),
           res_new_notification = 0\<rparr>"
proof -
  have pos: "0 < bufpos (dag_reply cfg v tbl preferred_size 0)"
    using assms(2) dag_text_nonempty [of cfg v tbl] by (simp add: dag_reply_bufpos)
  have "take (bufpos (dag_reply cfg v tbl preferred_size 0)) (buffer (dag_reply cfg v tbl preferred_size 0))
      = take preferred_size (dag_text cfg v tbl)"
    by (simp add: dag_reply_bufpos dag_reply_buffer min_def)
  then show ?thesis
    using assms(1) pos
    by (cases accept)
       (simp_all add: plexi_get_dag_handler_def Let_def plexi_dag_event_handler_def
          size_le_signed_def dag_reply_strpos)
qed

section \<open>Properties of the change notification\<close>

text \<open>During a burst the timer is re-armed by every signal and never fires.\<close>

lemma run_burst:
  assumes "burst (debounce_interval cs) ((t, ev) # evs)"
    and "rpl_changed_timer g = None \<or> (\<exists>e. rpl_changed_timer g = Some e \<and> t < e)"
  shows "rpl_changed_timer (run_events cs ((t, ev) # evs) g)
           = Some (fst (last ((t, ev) # evs)) + debounce_interval cs)
       \<and> notified (run_events cs ((t, ev) # evs) g) = notified g
       \<and> new_notification (run_events cs ((t, ev) # evs) g) = new_notification g"
  using assms
proof (induction evs arbitrary: t ev g)
  case Nil
  then show ?case
    by (auto simp: rpl_changed_callback_def ctimer_expire_def ctimer_set_def debounce_interval_def)
next
  case (Cons x evs)
  obtain u ev' where x: "x = (u, ev')" by (cases x)
  let ?g = "rpl_changed_callback cs t ev (ctimer_expire t g)"
  have idle: "ctimer_expire t g = g" using Cons.prems(2) by (auto simp: ctimer_expire_def)
  have ev: "ev = ROUTE_ADD \<or> ev = ROUTE_RM" using Cons.prems(1) x by simp
  then have g': "?g = g\<lparr>rpl_changed_timer := Some (t + debounce_interval cs)\<rparr>"
    by (auto simp: idle rpl_changed_callback_def ctimer_set_def debounce_interval_def)
  have b: "burst (debounce_interval cs) ((u, ev') # evs)" and lt: "u < t + debounce_interval cs"
    using Cons.prems(1) x by simp_all
  have "rpl_changed_timer ?g = None \<or> (\<exists>e. rpl_changed_timer ?g = Some e \<and> u < e)"
    using g' lt by simp
  from Cons.IH [OF b this] show ?case using g' x by simp
qed

text \<open>
  Claim C6. Start with the timer idle and feed a non-empty burst of route-added and
  route-removed signals, each less than the debounce interval after the one before. Up
  to any later time \<open>horizon\<close> the subscribers have been notified once, at the time of
  the last signal plus the interval, if that time has come, and not at all before it.
\<close>

theorem debounce_coalescing:
  assumes "burst (debounce_interval cs) evs" and "evs \<noteq> []"
    and "rpl_changed_timer g = None"
  shows "notified (ctimer_expire horizon (run_events cs evs g)) =
           (if fst (last evs) + debounce_interval cs \<le> horizon
            then notified g @ [fst (last evs) + debounce_interval cs]
            else notified g)"
proof -
  obtain t ev rest where evs: "evs = (t, ev) # rest" using assms(2) by (cases evs) auto
  from run_burst [of cs t ev rest g] assms(1,3) evs
  show ?thesis
    by (auto simp: ctimer_expire_def plexi_rpl_changed_handler_def plexi_dag_event_handler_def)
qed

theorem debounce_coalescing_witness:
  "notified (ctimer_expire 1000
      (run_events 1 [(0, ROUTE_ADD), (10, ROUTE_RM), (39, ROUTE_ADD)] idle_globals)) = [69]
   \<and> notified (ctimer_expire 68
      (run_events 1 [(0, ROUTE_ADD), (10, ROUTE_RM), (39, ROUTE_ADD)] idle_globals)) = []"
proof -
  have b: "burst (debounce_interval 1) [(0, ROUTE_ADD), (10, ROUTE_RM), (39, ROUTE_ADD)]"
    by (simp add: debounce_interval_def PLEXI_RPL_UPDATE_INTERVAL_def)
  have n: "[(0 :: nat, ROUTE_ADD), (10, ROUTE_RM), (39, ROUTE_ADD)] \<noteq> []" by simp
  have i: "rpl_changed_timer idle_globals = None" by (simp add: idle_globals_def)
  show ?thesis
    using debounce_coalescing [OF b n i, of 1000] debounce_coalescing [OF b n i, of 68]
    by (simp add: debounce_interval_def PLEXI_RPL_UPDATE_INTERVAL_def idle_globals_def)
qed

end
